theory Spec2Isabelle
  imports Complex_Main "HOL-Library.Word"
begin

section \<open>The live voice session of OmniMind (component LiveInterface)\<close>

text \<open>
  The component \<open>LiveInterface\<close> keeps five React state variables and ten refs, and
  talks to four kinds of browser objects: AudioContexts, the microphone MediaStream,
  the live transport connection and the AudioBufferSourceNodes it schedules.  The
  embedding puts all of them in one record that every handler takes and returns.

  Conventions of the embedding:
  \<^item> Times and durations are seconds, as in the Web Audio API, taken as exact
    rationals (\<open>0.15\<close> is \<open>3/20\<close>); rounding of IEEE doubles is not modelled.
  \<^item> A browser object is identified by the index at which it was created in the list
    of its kind; a ref holds \<open>None\<close> for \<open>null\<close> or \<open>Some\<close> index.
  \<^item> The ids that \<open>requestAnimationFrame\<close> and \<open>setTimeout\<close> return are positive in
    a browser, so a ref that holds one is truthy; the model numbers them from 0 and
    tests the ref for \<open>None\<close>.
  \<^item> Each handler runs to completion before the next event is handled; the
    interleaving of two handlers at an \<open>await\<close> is not modelled.
  \<^item> \<open>new AudioContext\<close>, \<open>resume()\<close> of a suspended context and the creation of
    audio nodes succeed; the one failing step of \<open>startSession\<close>'s \<open>try\<close> block is the
    request for the microphone.
\<close>

subsection \<open>Data\<close>

datatype Status = Disconnected | Connecting | Connected | Error

datatype ctxState = Suspended | Running | Closed

text \<open>
  What one call of \<open>ai.live.connect\<close> creates: a connection whose callbacks close over
  the locals \<open>inputCtx\<close> and \<open>outputCtx\<close> of that call of \<open>startSession\<close> and over the
  constant \<open>isActive\<close> of the render whose \<open>startSession\<close> was invoked
  (\<open>c_isActive\<close>; a later \<open>setIsActive\<close> does not change what the callbacks see).
  \<open>c_closeCalls\<close> counts the calls of \<open>close()\<close> on the session.
\<close>

record conn =
  c_inputCtx :: nat
  c_outputCtx :: nat
  c_isActive :: bool
  c_closeCalls :: nat

text \<open>The fields of a \<open>LiveServerMessage\<close> that \<open>onmessage\<close> reads.\<close>

record message =
  inlineData :: "string option"
  interrupted :: bool
  turnComplete :: bool

text \<open>
  What the host answers during one call of \<open>startSession\<close>: \<open>process.env.API_KEY\<close>,
  the state in which each new AudioContext is created, and the outcome of
  \<open>getUserMedia\<close> (\<open>Inl\<close> the \<open>message\<close> of the error thrown, empty when it has none).
\<close>

record host =
  API_KEY :: "string option"
  inputCtxState :: ctxState
  outputCtxState :: ctxState
  getUserMedia :: "string + unit"

record component =
  \<comment> \<open>React state\<close>
  isActive :: bool
  status :: Status
  errorMsg :: string
  volume :: rat
  isModelSpeaking :: bool
  \<comment> \<open>refs\<close>
  audioContextRef :: "nat option"
  inputAudioContextRef :: "nat option"
  nextStartTimeRef :: rat
  sessionRef :: "nat option"
  sourcesRef :: "nat list"
  inputSourceRef :: "nat option"
  processorRef :: "nat option"
  analyserRef :: "nat option"
  animationFrameRef :: "nat option"
  modelSpeakingTimeoutRef :: "nat option"
  \<comment> \<open>the buffer \<open>dataArray\<close> of the running visualizer loop\<close>
  dataArray :: "8 word list"
  \<comment> \<open>browser objects\<close>
  contexts :: "(nat \<times> ctxState) list"
  liveStreams :: nat
  sessions :: "conn list"
  graphs :: "(bool \<times> bool) list"
  sources :: "(rat \<times> rat \<times> bool) list"
  timers :: "bool list"
  frameRequests :: nat

text \<open>
  \<open>contexts\<close>: sample rate and state of every AudioContext created.
  \<open>liveStreams\<close>: the number of microphone streams obtained from \<open>getUserMedia\<close>; the
  source never stops a stream's tracks, so no operation lowers it.
  \<open>graphs\<close>: for every capture graph built by \<open>onopen\<close>, whether its source node and
  its processor node are still connected.
  \<open>sources\<close>: for every AudioBufferSourceNode, its start time, the duration of its
  buffer and whether \<open>stop()\<close> was called on it.
  \<open>timers\<close>: for every timer set by \<open>setTimeout\<close>, whether it is still pending.
  \<open>frameRequests\<close>: the number of calls of \<open>requestAnimationFrame\<close> so far; the
  next request gets this number as its id.
\<close>

definition initial :: component where
  "initial = \<lparr> isActive = False, status = Disconnected, errorMsg = [], volume = 0,
     isModelSpeaking = False, audioContextRef = None, inputAudioContextRef = None,
     nextStartTimeRef = 0, sessionRef = None, sourcesRef = [], inputSourceRef = None,
     processorRef = None, analyserRef = None, animationFrameRef = None,
     modelSpeakingTimeoutRef = None, dataArray = [], contexts = [], liveStreams = 0,
     sessions = [], graphs = [], sources = [], timers = [], frameRequests = 0 \<rparr>"

subsection \<open>Host operations\<close>

text \<open>JavaScript truthiness of an optional string: \<open>undefined\<close> and \<open>""\<close> are falsy.\<close>

fun truthy :: "string option \<Rightarrow> bool" where
  "truthy None = False"
| "truthy (Some b) = (b \<noteq> [])"

text \<open>\<open>if (ctx.state === 'suspended') await ctx.resume()\<close>\<close>

definition resumeIfSuspended :: "nat \<Rightarrow> component \<Rightarrow> component" where
  "resumeIfSuspended c s =
     (if c < length (contexts s) \<and> snd (contexts s ! c) = Suspended
      then s\<lparr>contexts := (contexts s)[c := (fst (contexts s ! c), Running)]\<rparr>
      else s)"

text \<open>\<open>ref.current?.close()\<close>\<close>

definition closeContext :: "nat option \<Rightarrow> component \<Rightarrow> component" where
  "closeContext r s =
     (case r of
        None \<Rightarrow> s
      | Some c \<Rightarrow>
          if c < length (contexts s)
          then s\<lparr>contexts := (contexts s)[c := (fst (contexts s ! c), Closed)]\<rparr>
          else s)"

text \<open>\<open>s.stop()\<close> on one AudioBufferSourceNode\<close>

definition stopSource :: "nat \<Rightarrow> component \<Rightarrow> component" where
  "stopSource h s =
     (if h < length (sources s)
      then s\<lparr>sources := (sources s)[h := (fst (sources s ! h), fst (snd (sources s ! h)), True)]\<rparr>
      else s)"

text \<open>
  \<open>analyser.getByteFrequencyData(dataArray)\<close>: the analyser's data \<open>freq\<close> is copied
  over the array; the array keeps its length.
\<close>

definition getByteFrequencyData :: "8 word list \<Rightarrow> 8 word list \<Rightarrow> 8 word list" where
  "getByteFrequencyData freq arr = take (length arr) freq @ drop (length freq) arr"

definition fftSize :: nat where
  "fftSize = 256"

definition frequencyBinCount :: nat where
  "frequencyBinCount = fftSize div 2"

subsection \<open>The visualizer\<close>

definition stopVisualizer :: "component \<Rightarrow> component" where
  "stopVisualizer s =
     s\<lparr>animationFrameRef := None, volume := 0, isModelSpeaking := False\<rparr>"

text \<open>
  \<open>bufferLength\<close> is read once by \<open>startVisualizer\<close> from the analyser, whose
  \<open>fftSize\<close> is set to 256 by \<open>onopen\<close>.
\<close>

definition bufferLength :: nat where
  "bufferLength = frequencyBinCount"

definition relevantBins :: nat where
  "relevantBins = bufferLength div 2"

text \<open>The loop \<open>for (i = 0; i < relevantBins; i++) sum += dataArray[i]\<close>.\<close>

definition sumBins :: "8 word list \<Rightarrow> rat" where
  "sumBins arr = foldl (\<lambda>sum i. sum + of_nat (unat (arr ! i))) 0 [0 ..< relevantBins]"

definition updateVolume :: "8 word list \<Rightarrow> component \<Rightarrow> component" where
  "updateVolume freq s =
     (if analyserRef s = None then s
      else
        let arr = getByteFrequencyData freq (dataArray s);
            average = sumBins arr / of_nat relevantBins;
            vol = min 100 (max 0 (average * (5 / 2)))
        in s\<lparr>dataArray := arr, volume := vol,
             animationFrameRef := Some (frameRequests s),
             frameRequests := Suc (frameRequests s)\<rparr>)"

definition startVisualizer :: "8 word list \<Rightarrow> component \<Rightarrow> component" where
  "startVisualizer freq s =
     (if analyserRef s = None then s
      else updateVolume freq (s\<lparr>dataArray := replicate bufferLength 0\<rparr>))"

subsection \<open>startSession and stopSession\<close>

definition startSession :: "host \<Rightarrow> component \<Rightarrow> component" where
  "startSession h s =
     (if \<not> truthy (API_KEY h) then s\<lparr>errorMsg := ''API Key missing''\<rparr>
      else
        let s1 = s\<lparr>status := Connecting, errorMsg := [], isModelSpeaking := False\<rparr>;
            inputCtx = length (contexts s1);
            s2 = s1\<lparr>contexts := contexts s1 @ [(16000, inputCtxState h)]\<rparr>;
            outputCtx = length (contexts s2);
            s3 = s2\<lparr>contexts := contexts s2 @ [(24000, outputCtxState h)]\<rparr>;
            s4 = resumeIfSuspended outputCtx (resumeIfSuspended inputCtx s3);
            s5 = s4\<lparr>inputAudioContextRef := Some inputCtx,
                    audioContextRef := Some outputCtx,
                    nextStartTimeRef := 0\<rparr>
        in case getUserMedia h of
             Inl m \<Rightarrow>
               stopVisualizer
                 (s5\<lparr>status := Error,
                     errorMsg := (if m = [] then ''Failed to start live session'' else m)\<rparr>)
           | Inr _ \<Rightarrow>
               s5\<lparr>liveStreams := Suc (liveStreams s5),
                   sessions := sessions s5 @
                     [\<lparr>c_inputCtx = inputCtx, c_outputCtx = outputCtx,
                       c_isActive = isActive s, c_closeCalls = 0\<rparr>],
                   sessionRef := Some (length (sessions s5))\<rparr>)"

text \<open>\<open>inputSourceRef.current.disconnect(); processorRef.current.disconnect()\<close>\<close>

definition disconnectNodes :: "component \<Rightarrow> component" where
  "disconnectNodes s =
     (case (processorRef s, inputSourceRef s) of
        (Some p, Some i) \<Rightarrow>
          let g1 = (if i < length (graphs s)
                    then (graphs s)[i := (False, snd (graphs s ! i))] else graphs s);
              g2 = (if p < length g1 then g1[p := (fst (g1 ! p), False)] else g1)
          in s\<lparr>graphs := g2\<rparr>
      | _ \<Rightarrow> s)"

text \<open>\<open>if (sessionRef.current) sessionRef.current.then(s => s.close())\<close>\<close>

definition closeSession :: "component \<Rightarrow> component" where
  "closeSession s =
     (case sessionRef s of
        None \<Rightarrow> s
      | Some k \<Rightarrow>
          if k < length (sessions s)
          then s\<lparr>sessions := (sessions s)
                 [k := (sessions s ! k)\<lparr>c_closeCalls := Suc (c_closeCalls (sessions s ! k))\<rparr>]\<rparr>
          else s)"

definition stopSession :: "component \<Rightarrow> component" where
  "stopSession s =
     (let s1 = stopVisualizer s;
          s2 = disconnectNodes s1;
          s3 = closeContext (audioContextRef s2) (closeContext (inputAudioContextRef s2) s2);
          s4 = closeSession s3
      in s4\<lparr>isActive := False, status := Disconnected, sessionRef := None,
             sourcesRef := [], isModelSpeaking := False\<rparr>)"

subsection \<open>The callbacks of a connection\<close>

definition onopen :: "nat \<Rightarrow> 8 word list \<Rightarrow> component \<Rightarrow> component" where
  "onopen k freq s =
     (if \<not> k < length (sessions s) then s
      else
        let s1 = s\<lparr>status := Connected, isActive := True\<rparr>;
            g = length (graphs s1);
            s2 = s1\<lparr>graphs := graphs s1 @ [(True, True)],
                    inputSourceRef := Some g, analyserRef := Some g\<rparr>;
            s3 = startVisualizer freq s2
        in s3\<lparr>processorRef := Some g\<rparr>)"

text \<open>
  The audio branch of \<open>onmessage\<close>.  \<open>decodeAudioData\<close> stands for
  \<open>decodeAudioData(base64ToUint8Array(base64Audio), outputCtx, 24000, 1)\<close> of
  \<open>services/audioUtils\<close>: it yields the duration of the decoded buffer, or \<open>None\<close>
  when either function throws, which the \<open>catch\<close> only logs.
\<close>

definition scheduleAudio ::
  "(string \<Rightarrow> rat option) \<Rightarrow> nat \<Rightarrow> string \<Rightarrow> rat \<Rightarrow> component \<Rightarrow> component" where
  "scheduleAudio decodeAudioData outputCtx base64Audio now s =
     (let s1 = resumeIfSuspended outputCtx s
      in case decodeAudioData base64Audio of
           None \<Rightarrow> s1
         | Some duration \<Rightarrow>
             let s2 = (if nextStartTimeRef s1 < now
                       then s1\<lparr>nextStartTimeRef := now + 3 / 20\<rparr> else s1);
                 source = length (sources s2);
                 s3 = s2\<lparr>sources := sources s2 @ [(nextStartTimeRef s2, duration, False)]\<rparr>;
                 s4 = s3\<lparr>nextStartTimeRef := nextStartTimeRef s3 + duration,
                         sourcesRef := sourcesRef s3 @ [source],
                         isModelSpeaking := True\<rparr>;
                 s5 = (case modelSpeakingTimeoutRef s4 of
                         None \<Rightarrow> s4
                       | Some t \<Rightarrow> s4\<lparr>timers := (timers s4)[t := False]\<rparr>)
             in s5\<lparr>timers := timers s5 @ [True],
                    modelSpeakingTimeoutRef := Some (length (timers s5))\<rparr>)"

text \<open>The interruption branch of \<open>onmessage\<close>.\<close>

definition flush :: "component \<Rightarrow> component" where
  "flush s =
     (foldl (\<lambda>t h. stopSource h t) s (sourcesRef s))
       \<lparr>sourcesRef := [], nextStartTimeRef := 0, isModelSpeaking := False\<rparr>"

definition onmessage ::
  "(string \<Rightarrow> rat option) \<Rightarrow> nat \<Rightarrow> message \<Rightarrow> rat \<Rightarrow> component \<Rightarrow> component" where
  "onmessage decodeAudioData k msg now s =
     (if \<not> k < length (sessions s) then s
      else
        let s1 = (if truthy (inlineData msg)
                  then scheduleAudio decodeAudioData (c_outputCtx (sessions s ! k))
                         (the (inlineData msg)) now s
                  else s)
        in if interrupted msg then flush s1 else s1)"

definition onclose :: "nat \<Rightarrow> component \<Rightarrow> component" where
  "onclose k s =
     (if \<not> k < length (sessions s) then s
      else
        stopVisualizer
          (if c_isActive (sessions s ! k)
           then s\<lparr>status := Disconnected, isActive := False\<rparr> else s))"

definition onerror :: "nat \<Rightarrow> component \<Rightarrow> component" where
  "onerror k s =
     (if \<not> k < length (sessions s) then s
      else
        stopVisualizer
          (s\<lparr>status := Error, errorMsg := ''Connection interrupted. Reconnecting...'',
             isActive := False\<rparr>))"

text \<open>The callback given to \<open>setTimeout\<close> by \<open>onmessage\<close>; it runs if the timer is pending.\<close>

definition onSpeakingTimeout :: "nat \<Rightarrow> rat \<Rightarrow> component \<Rightarrow> component" where
  "onSpeakingTimeout t now s =
     (if t < length (timers s) \<and> timers s ! t
      then
        let s1 = s\<lparr>timers := (timers s)[t := False]\<rparr>
        in if nextStartTimeRef s1 - 1 / 10 \<le> now then s1\<lparr>isModelSpeaking := False\<rparr> else s1
      else s)"

text \<open>\<open>source.onended\<close>\<close>

definition onended :: "nat \<Rightarrow> component \<Rightarrow> component" where
  "onended h s = s\<lparr>sourcesRef := removeAll h (sourcesRef s)\<rparr>"

subsection \<open>Events\<close>

text \<open>
  The main button calls \<open>stopSession\<close> when \<open>isActive\<close> holds and \<open>startSession\<close>
  otherwise; unmounting the component calls \<open>stopSession\<close>.  An animation frame runs
  \<open>updateVolume\<close> if its request is the one in \<open>animationFrameRef\<close>, that is, if it was
  not cancelled.
\<close>

datatype event =
    Click host
  | Unmount
  | OnOpen nat "8 word list"
  | OnMessage nat message rat
  | OnClose nat
  | OnError nat
  | AnimationFrame nat "8 word list"
  | SpeakingTimeout nat rat
  | SourceEnded nat

fun step :: "(string \<Rightarrow> rat option) \<Rightarrow> component \<Rightarrow> event \<Rightarrow> component" where
  "step dec s (Click h) = (if isActive s then stopSession s else startSession h s)"
| "step dec s Unmount = stopSession s"
| "step dec s (OnOpen k freq) = onopen k freq s"
| "step dec s (OnMessage k msg now) = onmessage dec k msg now s"
| "step dec s (OnClose k) = onclose k s"
| "step dec s (OnError k) = onerror k s"
| "step dec s (AnimationFrame f freq) =
     (if animationFrameRef s = Some f then updateVolume freq s else s)"
| "step dec s (SpeakingTimeout t now) = onSpeakingTimeout t now s"
| "step dec s (SourceEnded h) = onended h s"

definition run :: "(string \<Rightarrow> rat option) \<Rightarrow> component \<Rightarrow> event list \<Rightarrow> component" where
  "run dec s evs = foldl (step dec) s evs"

subsection \<open>Sequences of frames and the properties of a session\<close>

text \<open>A message that carries one audio chunk, and the message of an interruption.\<close>

definition frame :: "string \<Rightarrow> message" where
  "frame b = \<lparr>inlineData = Some b, interrupted = False, turnComplete = False\<rparr>"

definition interruption :: message where
  "interruption = \<lparr>inlineData = None, interrupted = True, turnComplete = False\<rparr>"

text \<open>
  Connection \<open>k\<close> delivers the audio chunks \<open>fs\<close>, each a payload with the device time
  at which its handler reads \<open>outputCtx.currentTime\<close>, and no interruption.
\<close>

fun playFrames ::
  "(string \<Rightarrow> rat option) \<Rightarrow> nat \<Rightarrow> component \<Rightarrow> (string \<times> rat) list \<Rightarrow> component" where
  "playFrames dec k s [] = s"
| "playFrames dec k s (f # fs) = playFrames dec k (onmessage dec k (frame (fst f)) (snd f) s) fs"

text \<open>The start times of the sources created while \<open>fs\<close> was handled, in order.\<close>

definition frameStarts ::
  "(string \<Rightarrow> rat option) \<Rightarrow> nat \<Rightarrow> component \<Rightarrow> (string \<times> rat) list \<Rightarrow> rat list" where
  "frameStarts dec k s fs =
     map fst (drop (length (sources s)) (sources (playFrames dec k s fs)))"

text \<open>The value of \<open>nextStartTimeRef\<close> after the test \<open>nextStartTimeRef.current < now\<close>.\<close>

definition cursorStart :: "component \<Rightarrow> rat \<Rightarrow> rat" where
  "cursorStart s now = (if nextStartTimeRef s < now then now + 3 / 20 else nextStartTimeRef s)"

text \<open>
  The invariant of the playback cursor at device time \<open>now\<close>: the cursor is unset,
  which the component writes as \<open>0\<close>, or it is not behind the device.
\<close>

definition cursorInv :: "component \<Rightarrow> rat \<Rightarrow> bool" where
  "cursorInv s now = (nextStartTimeRef s = 0 \<or> now \<le> nextStartTimeRef s)"

text \<open>Source \<open>h\<close> exists and \<open>stop()\<close> was called on it.\<close>

definition stopped :: "component \<Rightarrow> nat \<Rightarrow> bool" where
  "stopped s h = (h < length (sources s) \<and> snd (snd (sources s ! h)))"

text \<open>The AudioContexts created between the states \<open>s\<close> and \<open>s'\<close>.\<close>

definition contextsOpenedBy :: "component \<Rightarrow> component \<Rightarrow> (nat \<times> ctxState) list" where
  "contextsOpenedBy s s' = drop (length (contexts s)) (contexts s')"

definition volOk :: "component \<Rightarrow> bool" where
  "volOk s = (0 \<le> volume s \<and> volume s \<le> 100)"

text \<open>Every connection's callbacks captured \<open>isActive = false\<close>.\<close>

definition capturesInactive :: "component \<Rightarrow> bool" where
  "capturesInactive s = list_all (\<lambda>c. \<not> c_isActive c) (sessions s)"

text \<open>
  An event of a run in which the API key is absent: every press of the button finds
  \<open>process.env.API_KEY\<close> falsy.
\<close>

fun keyAbsent :: "event \<Rightarrow> bool" where
  "keyAbsent (Click h) = (\<not> truthy (API_KEY h))"
| "keyAbsent e = True"

text \<open>The component holds nothing: no context, no connection, no stream, no timer.\<close>

definition neverStarted :: "component \<Rightarrow> bool" where
  "neverStarted s =
     (status s = Disconnected \<and> \<not> isActive s \<and> contexts s = [] \<and> sessions s = [] \<and>
      liveStreams s = 0 \<and> animationFrameRef s = None \<and> timers s = [] \<and>
      audioContextRef s = None \<and> inputAudioContextRef s = None \<and> sessionRef s = None \<and>
      processorRef s = None)"

text \<open>While an analyser is set, the visualizer's array has \<open>bufferLength\<close> elements.\<close>

definition arrayOk :: "component \<Rightarrow> bool" where
  "arrayOk s = (analyserRef s = None \<or> length (dataArray s) = bufferLength)"

subsection \<open>Concrete inputs\<close>

definition grantingHost :: host where
  "grantingHost = \<lparr>API_KEY = Some ''key'', inputCtxState = Suspended,
     outputCtxState = Running, getUserMedia = Inr ()\<rparr>"

definition denyingHost :: host where
  "denyingHost = \<lparr>API_KEY = Some ''key'', inputCtxState = Suspended,
     outputCtxState = Running, getUserMedia = Inl ''Permission denied''\<rparr>"

definition keylessHost :: host where
  "keylessHost = \<lparr>API_KEY = None, inputCtxState = Suspended,
     outputCtxState = Running, getUserMedia = Inr ()\<rparr>"

text \<open>A decoder for which the payload \<open>bad\<close> is malformed and every other one is 200 ms of audio.\<close>

definition fixedDecoder :: "string \<Rightarrow> rat option" where
  "fixedDecoder b = (if b = ''bad'' then None else Some (1 / 5))"

text \<open>The state after the button was pressed, the microphone granted and the connection opened.\<close>

definition openedSession :: component where
  "openedSession = run fixedDecoder initial [Click grantingHost, OnOpen 0 []]"

text \<open>Scenario A at \<open>t0 = 1\<close>: three chunks of 200 ms arrive at device time 1.\<close>

definition playingSession :: component where
  "playingSession = playFrames fixedDecoder 0 openedSession [(''a'', 1), (''b'', 1), (''c'', 1)]"

text \<open>One chunk of 200 ms was handled at device time 1 and nothing since.\<close>

definition underrunSession :: component where
  "underrunSession = onmessage fixedDecoder 0 (frame ''a'') 1 openedSession"

section \<open>Properties\<close>

subsection \<open>Auxiliary facts\<close>

lemmas handler_defs =
  run_def initial_def startSession_def stopSession_def onopen_def onclose_def onerror_def
  onmessage_def scheduleAudio_def flush_def stopSource_def resumeIfSuspended_def
  closeContext_def closeSession_def disconnectNodes_def startVisualizer_def
  updateVolume_def stopVisualizer_def frame_def interruption_def grantingHost_def
  denyingHost_def keylessHost_def Let_def

lemma openedSession_fields:
  "sessions openedSession =
     [\<lparr>c_inputCtx = 0, c_outputCtx = 1, c_isActive = False, c_closeCalls = 0\<rparr>]"
  "nextStartTimeRef openedSession = 0"
  "sources openedSession = []"
  "sourcesRef openedSession = []"
  "status openedSession = Connected"
  "isActive openedSession = True"
  "contexts openedSession = [(16000, Running), (24000, Running)]"
  "modelSpeakingTimeoutRef openedSession = None"
  "timers openedSession = []"
  by (simp_all add: openedSession_def handler_defs)

lemma resume_fields [simp]:
  "sessions (resumeIfSuspended c s) = sessions s"
  "sources (resumeIfSuspended c s) = sources s"
  "sourcesRef (resumeIfSuspended c s) = sourcesRef s"
  "nextStartTimeRef (resumeIfSuspended c s) = nextStartTimeRef s"
  "isModelSpeaking (resumeIfSuspended c s) = isModelSpeaking s"
  "status (resumeIfSuspended c s) = status s"
  "errorMsg (resumeIfSuspended c s) = errorMsg s"
  "isActive (resumeIfSuspended c s) = isActive s"
  "timers (resumeIfSuspended c s) = timers s"
  "modelSpeakingTimeoutRef (resumeIfSuspended c s) = modelSpeakingTimeoutRef s"
  "volume (resumeIfSuspended c s) = volume s"
  by (simp_all add: resumeIfSuspended_def)

lemma resume_idem: "resumeIfSuspended c (resumeIfSuspended c s) = resumeIfSuspended c s"
  by (simp add: resumeIfSuspended_def)

lemma scheduleAudio_decoded:
  assumes "dec b \<noteq> None"
  shows "sources (scheduleAudio dec c b now s)
           = sources s @ [(cursorStart s now, the (dec b), False)]"
    and "nextStartTimeRef (scheduleAudio dec c b now s) = cursorStart s now + the (dec b)"
    and "sourcesRef (scheduleAudio dec c b now s) = sourcesRef s @ [length (sources s)]"
    and "isModelSpeaking (scheduleAudio dec c b now s)"
  using assms
  by (auto simp: scheduleAudio_def cursorStart_def Let_def split: option.splits)

lemma scheduleAudio_failed:
  assumes "dec b = None"
  shows "scheduleAudio dec c b now s = resumeIfSuspended c s"
  using assms by (simp add: scheduleAudio_def)

lemma scheduleAudio_sessions: "sessions (scheduleAudio dec c b now s) = sessions s"
  by (simp add: scheduleAudio_def Let_def split: option.splits)

lemma onmessage_frame:
  assumes "k < length (sessions s)" and "b \<noteq> []" and "dec b \<noteq> None"
  shows "sources (onmessage dec k (frame b) now s)
           = sources s @ [(cursorStart s now, the (dec b), False)]"
    and "nextStartTimeRef (onmessage dec k (frame b) now s) = cursorStart s now + the (dec b)"
    and "sessions (onmessage dec k (frame b) now s) = sessions s"
  using assms
  by (simp_all add: onmessage_def frame_def scheduleAudio_decoded scheduleAudio_sessions)

lemma playFrames_sources:
  assumes "k < length (sessions s)"
    and "\<forall>g\<in>set fs. fst g \<noteq> [] \<and> dec (fst g) \<noteq> None"
  shows "\<exists>X. sources (playFrames dec k s fs) = sources s @ X \<and> length X = length fs"
  using assms
proof (induction fs arbitrary: s)
  case Nil
  then show ?case by simp
next
  case (Cons f fs)
  have ok: "fst f \<noteq> []" "dec (fst f) \<noteq> None" using Cons.prems(2) by simp_all
  let ?s1 = "onmessage dec k (frame (fst f)) (snd f) s"
  have k1: "k < length (sessions ?s1)"
    using Cons.prems(1) ok by (simp add: onmessage_frame)
  have "\<forall>g\<in>set fs. fst g \<noteq> [] \<and> dec (fst g) \<noteq> None" using Cons.prems(2) by simp
  from Cons.IH [OF k1 this] obtain X where
    X: "sources (playFrames dec k ?s1 fs) = sources ?s1 @ X" "length X = length fs" by blast
  have "sources ?s1 = sources s @ [(cursorStart s (snd f), the (dec (fst f)), False)]"
    using Cons.prems(1) ok by (simp add: onmessage_frame)
  with X show ?case by simp
qed

lemma frameStarts_step:
  assumes "k < length (sessions s)" and "fst f \<noteq> []" and "dec (fst f) \<noteq> None"
    and "\<forall>g\<in>set fs. fst g \<noteq> [] \<and> dec (fst g) \<noteq> None"
  shows "frameStarts dec k s (f # fs) =
           cursorStart s (snd f) # frameStarts dec k (onmessage dec k (frame (fst f)) (snd f) s) fs"
proof -
  let ?s1 = "onmessage dec k (frame (fst f)) (snd f) s"
  have k1: "k < length (sessions ?s1)"
    using assms by (simp add: onmessage_frame)
  obtain X where X: "sources (playFrames dec k ?s1 fs) = sources ?s1 @ X"
    using playFrames_sources [OF k1 assms(4)] by blast
  have s1: "sources ?s1 = sources s @ [(cursorStart s (snd f), the (dec (fst f)), False)]"
    using assms by (simp add: onmessage_frame)
  show ?thesis
    by (simp add: frameStarts_def X s1)
qed

lemma frameStarts_Nil: "frameStarts dec k s [] = []"
  by (simp add: frameStarts_def)

lemma fixedDecoder_good: "b \<noteq> ''bad'' \<Longrightarrow> fixedDecoder b = Some (1 / 5)"
  by (simp add: fixedDecoder_def)

lemma fixedDecoder_bad: "fixedDecoder ''bad'' = None"
  by (simp add: fixedDecoder_def)

lemma stopSource_frame:
  "\<exists>xs. stopSource h s = s\<lparr>sources := xs\<rparr> \<and> length xs = length (sources s) \<and>
        (h < length xs \<longrightarrow> snd (snd (xs ! h))) \<and>
        (\<forall>i<length xs. snd (snd (sources s ! i)) \<longrightarrow> snd (snd (xs ! i)))"
proof (cases "h < length (sources s)")
  case True
  then show ?thesis by (auto simp: stopSource_def nth_list_update)
next
  case False
  have "s = s\<lparr>sources := sources s\<rparr>" by simp
  with False show ?thesis unfolding stopSource_def by (metis (full_types))
qed

lemma stopAll_frame:
  "\<exists>xs. foldl (\<lambda>t h. stopSource h t) s hs = s\<lparr>sources := xs\<rparr> \<and>
        length xs = length (sources s) \<and>
        (\<forall>h\<in>set hs. h < length xs \<longrightarrow> snd (snd (xs ! h))) \<and>
        (\<forall>i<length xs. snd (snd (sources s ! i)) \<longrightarrow> snd (snd (xs ! i)))"
proof (induction hs arbitrary: s)
  case Nil
  have "s = s\<lparr>sources := sources s\<rparr>" by simp
  then show ?case by (metis empty_iff foldl_Nil list.set(1))
next
  case (Cons h hs)
  obtain ys where ys: "stopSource h s = s\<lparr>sources := ys\<rparr>" "length ys = length (sources s)"
    "h < length ys \<longrightarrow> snd (snd (ys ! h))"
    "\<forall>i<length ys. snd (snd (sources s ! i)) \<longrightarrow> snd (snd (ys ! i))"
    using stopSource_frame [of h s] by blast
  obtain xs where xs:
    "foldl (\<lambda>t h. stopSource h t) (s\<lparr>sources := ys\<rparr>) hs = s\<lparr>sources := ys\<rparr>\<lparr>sources := xs\<rparr>"
    "length xs = length (sources (s\<lparr>sources := ys\<rparr>))"
    "\<forall>h\<in>set hs. h < length xs \<longrightarrow> snd (snd (xs ! h))"
    "\<forall>i<length xs. snd (snd (sources (s\<lparr>sources := ys\<rparr>) ! i)) \<longrightarrow> snd (snd (xs ! i))"
    using Cons.IH [of "s\<lparr>sources := ys\<rparr>"] by blast
  have a: "foldl (\<lambda>t h. stopSource h t) s (h # hs) = s\<lparr>sources := xs\<rparr>"
    using ys(1) xs(1) by simp
  have b: "length xs = length (sources s)" using xs(2) ys(2) by simp
  have c: "\<forall>g\<in>set (h # hs). g < length xs \<longrightarrow> snd (snd (xs ! g))"
    using xs(3) xs(4) ys(3) xs(2) by auto
  have d: "\<forall>i<length xs. snd (snd (sources s ! i)) \<longrightarrow> snd (snd (xs ! i))"
    using xs(4) ys(4) xs(2) by auto
  from a b c d show ?case by blast
qed

lemma flush_frame:
  "\<exists>xs. flush s = s\<lparr>sources := xs, sourcesRef := [], nextStartTimeRef := 0,
                     isModelSpeaking := False\<rparr>
      \<and> length xs = length (sources s)
      \<and> (\<forall>h\<in>set (sourcesRef s). h < length xs \<longrightarrow> snd (snd (xs ! h)))"
proof -
  obtain xs where xs: "foldl (\<lambda>t h. stopSource h t) s (sourcesRef s) = s\<lparr>sources := xs\<rparr>"
     "length xs = length (sources s)"
     "\<forall>h\<in>set (sourcesRef s). h < length xs \<longrightarrow> snd (snd (xs ! h))"
    using stopAll_frame [of s "sourcesRef s"] by blast
  show ?thesis unfolding flush_def xs(1) using xs(2,3) by auto
qed

lemma flush_fields:
  "sourcesRef (flush s) = []" "nextStartTimeRef (flush s) = 0" "isModelSpeaking (flush s) = False"
  "sessions (flush s) = sessions s" "length (sources (flush s)) = length (sources s)"
  "status (flush s) = status s" "volume (flush s) = volume s"
  "errorMsg (flush s) = errorMsg s" "isActive (flush s) = isActive s"
  using flush_frame [of s] by auto

lemma flush_stops: "h \<in> set (sourcesRef s) \<Longrightarrow> h < length (sources s) \<Longrightarrow> stopped (flush s) h"
  using flush_frame [of s] by (auto simp: stopped_def)

lemma onmessage_sessions: "sessions (onmessage dec k msg now s) = sessions s"
  by (simp add: onmessage_def Let_def scheduleAudio_sessions flush_fields)

lemma onmessage_audio:
  assumes "k < length (sessions s)" and "inlineData msg = Some b" and "b \<noteq> []"
    and "\<not> interrupted msg" and "dec b \<noteq> None"
  shows "sources (onmessage dec k msg now s)
           = sources s @ [(cursorStart s now, the (dec b), False)]"
    and "nextStartTimeRef (onmessage dec k msg now s) = cursorStart s now + the (dec b)"
    and "sourcesRef (onmessage dec k msg now s) = sourcesRef s @ [length (sources s)]"
    and "isModelSpeaking (onmessage dec k msg now s)"
  using assms by (simp_all add: onmessage_def scheduleAudio_decoded)

subsection \<open>Scheduling of inbound frames\<close>

text \<open>
  C1 (amended).  Connection \<open>k\<close> delivers the decodable audio chunks \<open>fs\<close> with no
  interruption between them.  Then one source is started per chunk, and chunk \<open>i\<close>
  starts at the cursor \<open>c\<close> it finds, which is the start of chunk \<open>i - 1\<close> plus that
  chunk's duration (for the first chunk, the cursor of the state the run begins in),
  unless \<open>c\<close> is behind the device time \<open>now\<close> read by the handler: then it starts at
  \<open>now + 0.15\<close>.  The unset cursor is the number \<open>0\<close>, so it is behind every
  positive device time.  In particular three chunks of 200 ms that arrive at the same
  device time \<open>t > 0\<close> with the cursor unset start at \<open>t + 0.15\<close>, \<open>t + 0.35\<close> and
  \<open>t + 0.55\<close>.
\<close>

theorem frames_chain_or_restart:
  assumes "k < length (sessions s)"
    and "\<forall>g\<in>set fs. fst g \<noteq> [] \<and> dec (fst g) \<noteq> None"
  shows "length (frameStarts dec k s fs) = length fs \<and>
    (\<forall>i<length fs. frameStarts dec k s fs ! i =
       (let c = (if i = 0 then nextStartTimeRef s
                 else frameStarts dec k s fs ! (i - 1) + the (dec (fst (fs ! (i - 1)))))
        in if c < snd (fs ! i) then snd (fs ! i) + 3 / 20 else c)) \<and>
    (nextStartTimeRef s = 0 \<and> 0 < t \<and> fs = [(p, t), (q, t), (r, t)] \<and>
     dec p = Some (1 / 5) \<and> dec q = Some (1 / 5) \<and> dec r = Some (1 / 5)
       \<longrightarrow> frameStarts dec k s fs = [t + 3 / 20, t + 7 / 20, t + 11 / 20])"
proof -
  have general: "length (frameStarts dec k s fs) = length fs \<and>
    (\<forall>i<length fs. frameStarts dec k s fs ! i =
       (let c = (if i = 0 then nextStartTimeRef s
                 else frameStarts dec k s fs ! (i - 1) + the (dec (fst (fs ! (i - 1)))))
        in if c < snd (fs ! i) then snd (fs ! i) + 3 / 20 else c))"
    using assms
  proof (induction fs arbitrary: s)
    case Nil
    then show ?case by (simp add: frameStarts_Nil)
  next
    case (Cons f fs)
    have ok: "fst f \<noteq> []" "dec (fst f) \<noteq> None" using Cons.prems(2) by simp_all
    have rest: "\<forall>g\<in>set fs. fst g \<noteq> [] \<and> dec (fst g) \<noteq> None" using Cons.prems(2) by simp
    let ?s1 = "onmessage dec k (frame (fst f)) (snd f) s"
    have k1: "k < length (sessions ?s1)"
      using Cons.prems(1) ok by (simp add: onmessage_frame)
    have c1: "nextStartTimeRef ?s1 = cursorStart s (snd f) + the (dec (fst f))"
      using Cons.prems(1) ok by (simp add: onmessage_frame)
    have st: "frameStarts dec k s (f # fs) = cursorStart s (snd f) # frameStarts dec k ?s1 fs"
      using frameStarts_step [OF Cons.prems(1) ok rest] .
    note IH = Cons.IH [OF k1 rest]
    have len: "length (frameStarts dec k s (f # fs)) = length (f # fs)"
      using IH st by simp
    have nth: "frameStarts dec k s (f # fs) ! i =
         (let c = (if i = 0 then nextStartTimeRef s
                   else frameStarts dec k s (f # fs) ! (i - 1) + the (dec (fst ((f # fs) ! (i - 1)))))
          in if c < snd ((f # fs) ! i) then snd ((f # fs) ! i) + 3 / 20 else c)"
      if i: "i < length (f # fs)" for i
    proof (cases i)
      case 0
      then show ?thesis by (simp add: st cursorStart_def Let_def)
    next
      case (Suc j)
      then have j: "j < length fs" using i by simp
      from IH j have e: "frameStarts dec k ?s1 fs ! j =
         (let c = (if j = 0 then nextStartTimeRef ?s1
                   else frameStarts dec k ?s1 fs ! (j - 1) + the (dec (fst (fs ! (j - 1)))))
          in if c < snd (fs ! j) then snd (fs ! j) + 3 / 20 else c)" by blast
      show ?thesis
      proof (cases j)
        case 0
        with e Suc show ?thesis by (simp add: st c1 Let_def)
      next
        case (Suc m)
        with e \<open>i = Suc j\<close> show ?thesis by (simp add: st Let_def)
      qed
    qed
    from len nth show ?case by blast
  qed
  have scenario: "frameStarts dec k s fs = [t + 3 / 20, t + 7 / 20, t + 11 / 20]"
    if c0: "nextStartTimeRef s = 0" and t: "0 < t" and fs: "fs = [(p, t), (q, t), (r, t)]"
      and d: "dec p = Some (1 / 5)" "dec q = Some (1 / 5)" "dec r = Some (1 / 5)"
  proof -
    have ne: "p \<noteq> []" "q \<noteq> []" "r \<noteq> []" using assms(2) fs by simp_all
    let ?s1 = "onmessage dec k (frame p) t s"
    let ?s2 = "onmessage dec k (frame q) t ?s1"
    let ?s3 = "onmessage dec k (frame r) t ?s2"
    have k1: "k < length (sessions ?s1)" using assms(1) ne d by (simp add: onmessage_frame)
    have k2: "k < length (sessions ?s2)" using k1 ne d by (simp add: onmessage_frame)
    have a0: "cursorStart s t = t + 3 / 20" using c0 t by (simp add: cursorStart_def)
    have n1: "nextStartTimeRef ?s1 = t + 7 / 20"
      using assms(1) ne d a0 by (simp add: onmessage_frame)
    have a1: "cursorStart ?s1 t = t + 7 / 20" using n1 by (simp add: cursorStart_def)
    have n2: "nextStartTimeRef ?s2 = t + 11 / 20"
      using k1 ne d a1 by (simp add: onmessage_frame)
    have a2: "cursorStart ?s2 t = t + 11 / 20" using n2 by (simp add: cursorStart_def)
    have dn: "dec p \<noteq> None" "dec q \<noteq> None" "dec r \<noteq> None" using d by simp_all
    have r3: "\<forall>g\<in>set []. fst g \<noteq> [] \<and> dec (fst g) \<noteq> None" by simp
    have r2: "\<forall>g\<in>set [(r, t)]. fst g \<noteq> [] \<and> dec (fst g) \<noteq> None"
      using ne dn by simp
    have r1: "\<forall>g\<in>set [(q, t), (r, t)]. fst g \<noteq> [] \<and> dec (fst g) \<noteq> None"
      using ne dn by simp
    have e3: "frameStarts dec k ?s2 [(r, t)] = [t + 11 / 20]"
      using frameStarts_step [of k ?s2 "(r, t)" dec "[]", OF k2 _ _ r3] ne dn a2
      by (simp add: frameStarts_Nil)
    have e2: "frameStarts dec k ?s1 [(q, t), (r, t)] = [t + 7 / 20, t + 11 / 20]"
      using frameStarts_step [of k ?s1 "(q, t)" dec "[(r, t)]", OF k1 _ _ r2] ne dn a1 e3
      by simp
    have e1: "frameStarts dec k s [(p, t), (q, t), (r, t)] = [t + 3 / 20, t + 7 / 20, t + 11 / 20]"
      using frameStarts_step [of k s "(p, t)" dec "[(q, t), (r, t)]", OF assms(1) _ _ r1]
        ne dn a0 e2
      by simp
    show ?thesis unfolding fs by (rule e1)
  qed
  from general scenario show ?thesis by blast
qed

text \<open>The theorem at three chunks arriving at device time 1 in a freshly opened session.\<close>

theorem frames_chain_or_restart_witness:
  "0 < length (sessions openedSession) \<and>
   fixedDecoder ''a'' \<noteq> None \<and> fixedDecoder ''b'' \<noteq> None \<and> fixedDecoder ''c'' \<noteq> None \<and>
   frameStarts fixedDecoder 0 openedSession [(''a'', 1), (''b'', 1), (''c'', 1)]
     = [23 / 20, 27 / 20, 31 / 20]"
proof -
  have h1: "0 < length (sessions openedSession)" by (simp add: openedSession_fields)
  have h2: "\<forall>g\<in>set [(''a'', 1), (''b'', 1), (''c'', 1 :: rat)].
      fst g \<noteq> [] \<and> fixedDecoder (fst g) \<noteq> None"
    by (simp add: fixedDecoder_good del: not_None_eq)
  have c: "frameStarts fixedDecoder 0 openedSession [(''a'', 1), (''b'', 1), (''c'', 1)]
     = [23 / 20, 27 / 20, 31 / 20]"
    using frames_chain_or_restart
      [OF h1 h2, where t = 1 and p = "''a''" and q = "''b''" and r = "''c''"]
    by (simp add: openedSession_fields fixedDecoder_good)
  have h3: "fixedDecoder ''a'' \<noteq> None \<and> fixedDecoder ''b'' \<noteq> None \<and> fixedDecoder ''c'' \<noteq> None"
    using h2 by simp
  from h1 h3 c show ?thesis by blast
qed

text \<open>
  C1 as stated asks for \<open>start[i+1] = start[i] + d[i]\<close> for every sequence of frames.
  Two chunks of 200 ms arriving at device times 1 and 2: the first starts at 1.15 and
  ends at 1.35, the second arrives after the cursor fell behind and starts at 2.15.
\<close>

theorem underrun_breaks_chain_counterexample:
  "\<not> (frameStarts fixedDecoder 0 openedSession [(''a'', 1), (''b'', 2)] ! 1
        = frameStarts fixedDecoder 0 openedSession [(''a'', 1), (''b'', 2)] ! 0
          + the (fixedDecoder ''a''))"
proof -
  have k: "0 < length (sessions openedSession)" by (simp add: openedSession_fields)
  have "frameStarts fixedDecoder 0 openedSession [(''a'', 1), (''b'', 2)] = [23 / 20, 43 / 20]"
    using k
    by (simp add: frameStarts_step frameStarts_Nil onmessage_frame cursorStart_def
        openedSession_fields fixedDecoder_good)
  then show ?thesis by (simp add: fixedDecoder_good)
qed

subsection \<open>Interruption\<close>

text \<open>
  C2.  After a message with \<open>interrupted\<close> set has been handled, the set of active
  playback handles is empty, the playback cursor is unset (\<open>0\<close>), the model is no longer
  shown as speaking, and \<open>stop()\<close> was called on every source that was in the set.
  The next audio chunk, arriving at a device time \<open>later > 0\<close>, is started at
  \<open>later + 0.15\<close>, whatever the cursor was before the interruption.  The device time
  of a running context is positive; at device time \<open>0\<close> the unset cursor \<open>0\<close> is not
  behind the device.
\<close>

theorem interruption_flushes:
  assumes "k < length (sessions s)" and "interrupted msg"
    and "inlineData nxt = Some b" and "b \<noteq> []" and "\<not> interrupted nxt"
    and "dec b \<noteq> None" and "0 < later"
  shows "sourcesRef (onmessage dec k msg now s) = [] \<and>
         nextStartTimeRef (onmessage dec k msg now s) = 0 \<and>
         isModelSpeaking (onmessage dec k msg now s) = False \<and>
         (\<forall>h\<in>set (sourcesRef s). h < length (sources s)
             \<longrightarrow> stopped (onmessage dec k msg now s) h) \<and>
         sources (onmessage dec k nxt later (onmessage dec k msg now s))
           = sources (onmessage dec k msg now s) @ [(later + 3 / 20, the (dec b), False)]"
proof -
  let ?s1 = "if truthy (inlineData msg)
             then scheduleAudio dec (c_outputCtx (sessions s ! k)) (the (inlineData msg)) now s
             else s"
  have s': "onmessage dec k msg now s = flush ?s1"
    using assms(1,2) by (simp add: onmessage_def)
  have "set (sourcesRef s) \<subseteq> set (sourcesRef ?s1)" "length (sources s) \<le> length (sources ?s1)"
    by (auto simp: scheduleAudio_def Let_def split: option.splits)
  then have st: "\<forall>h\<in>set (sourcesRef s). h < length (sources s) \<longrightarrow> stopped (flush ?s1) h"
    using flush_stops [of _ ?s1] by (meson in_mono less_le_trans)
  have k': "k < length (sessions (flush ?s1))"
    using assms(1) by (simp add: flush_fields scheduleAudio_sessions)
  have "cursorStart (flush ?s1) later = later + 3 / 20"
    using assms(7) by (simp add: cursorStart_def flush_fields)
  then have nx: "sources (onmessage dec k nxt later (flush ?s1))
     = sources (flush ?s1) @ [(later + 3 / 20, the (dec b), False)]"
    using onmessage_audio(1) [of k "flush ?s1" "nxt" b dec later] k' assms(3-6) by simp
  show ?thesis unfolding s' using st nx by (simp add: flush_fields)
qed

lemma playingSession_fields:
  "sessions playingSession = sessions openedSession"
  "sourcesRef playingSession = [0, 1, 2]"
  "sources playingSession = [(23 / 20, 1 / 5, False), (27 / 20, 1 / 5, False), (31 / 20, 1 / 5, False)]"
  "nextStartTimeRef playingSession = 7 / 4"
  by (simp_all add: playingSession_def onmessage_sessions onmessage_audio frame_def
      openedSession_fields fixedDecoder_good cursorStart_def)

text \<open>
  The theorem on scenario B with \<open>t0 = 1\<close>: three sources are playing, the interruption
  arrives at 1.4 and a new chunk at 1.42 starts at 1.57.
\<close>

theorem interruption_flushes_witness:
  "0 < length (sessions playingSession) \<and> interrupted interruption \<and>
   sourcesRef (onmessage fixedDecoder 0 interruption (7 / 5) playingSession) = [] \<and>
   nextStartTimeRef (onmessage fixedDecoder 0 interruption (7 / 5) playingSession) = 0 \<and>
   stopped (onmessage fixedDecoder 0 interruption (7 / 5) playingSession) 0 \<and>
   stopped (onmessage fixedDecoder 0 interruption (7 / 5) playingSession) 1 \<and>
   stopped (onmessage fixedDecoder 0 interruption (7 / 5) playingSession) 2 \<and>
   sources (onmessage fixedDecoder 0 (frame ''d'') (71 / 50)
             (onmessage fixedDecoder 0 interruption (7 / 5) playingSession))
     = sources (onmessage fixedDecoder 0 interruption (7 / 5) playingSession)
         @ [(157 / 100, 1 / 5, False)]"
proof -
  have h1: "0 < length (sessions playingSession)"
    by (simp add: playingSession_fields openedSession_fields)
  have h2: "interrupted interruption" by (simp add: interruption_def)
  have h3: "inlineData (frame ''d'') = Some ''d''" "''d'' \<noteq> []" "\<not> interrupted (frame ''d'')"
    "fixedDecoder ''d'' \<noteq> None" "(0::rat) < 71 / 50"
    by (simp_all add: frame_def fixedDecoder_good)
  show ?thesis
    using interruption_flushes
        [where dec = fixedDecoder and b = "''d''" and k = 0 and s = playingSession
           and msg = interruption and nxt = "frame ''d''" and now = "7 / 5"
           and later = "71 / 50", OF h1 h2 h3] h1 h2
    by (simp add: playingSession_fields fixedDecoder_good)
qed

subsection \<open>A chunk that fails to decode\<close>

text \<open>
  C8.  A message whose audio payload fails to decode (and which is no interruption)
  adds no source and no playback handle, leaves the cursor, the speaking flag, the
  status, the error message and the active flag as they were, and every later message
  that carries audio is handled exactly as if the malformed one had never arrived.
\<close>

theorem decode_failure_skips_frame:
  assumes "k < length (sessions s)" and "inlineData msg = Some b" and "dec b = None"
    and "\<not> interrupted msg" and "truthy (inlineData nxt)"
  shows "sourcesRef (onmessage dec k msg now s) = sourcesRef s \<and>
         sources (onmessage dec k msg now s) = sources s \<and>
         nextStartTimeRef (onmessage dec k msg now s) = nextStartTimeRef s \<and>
         isModelSpeaking (onmessage dec k msg now s) = isModelSpeaking s \<and>
         status (onmessage dec k msg now s) = status s \<and>
         errorMsg (onmessage dec k msg now s) = errorMsg s \<and>
         isActive (onmessage dec k msg now s) = isActive s \<and>
         onmessage dec k nxt later (onmessage dec k msg now s) = onmessage dec k nxt later s"
proof -
  let ?c = "c_outputCtx (sessions s ! k)"
  have s': "onmessage dec k msg now s = (if b = [] then s else resumeIfSuspended ?c s)"
    using assms(1-4) by (simp add: onmessage_def scheduleAudio_failed)
  have "scheduleAudio dec c x t (resumeIfSuspended c s) = scheduleAudio dec c x t s" for c x t
    by (simp add: scheduleAudio_def resume_idem)
  then have "onmessage dec k nxt later (resumeIfSuspended ?c s) = onmessage dec k nxt later s"
    using assms(1,5) by (simp add: onmessage_def)
  then show ?thesis unfolding s' by simp
qed

text \<open>The theorem at a malformed chunk followed by a good one in a freshly opened session.\<close>

theorem decode_failure_skips_frame_witness:
  "0 < length (sessions openedSession) \<and> inlineData (frame ''bad'') = Some ''bad'' \<and>
   fixedDecoder ''bad'' = None \<and>
   sourcesRef (onmessage fixedDecoder 0 (frame ''bad'') 1 openedSession) = [] \<and>
   sources (onmessage fixedDecoder 0 (frame ''bad'') 1 openedSession) = [] \<and>
   nextStartTimeRef (onmessage fixedDecoder 0 (frame ''bad'') 1 openedSession) = 0 \<and>
   status (onmessage fixedDecoder 0 (frame ''bad'') 1 openedSession) = Connected \<and>
   sources (onmessage fixedDecoder 0 (frame ''a'') 2
              (onmessage fixedDecoder 0 (frame ''bad'') 1 openedSession))
     = [(43 / 20, 1 / 5, False)]"
proof -
  have h1: "0 < length (sessions openedSession)" by (simp add: openedSession_fields)
  have h2: "inlineData (frame ''bad'') = Some ''bad''" "fixedDecoder ''bad'' = None"
    "\<not> interrupted (frame ''bad'')" "truthy (inlineData (frame ''a''))"
    by (simp_all add: frame_def fixedDecoder_bad)
  have "sources (onmessage fixedDecoder 0 (frame ''a'') 2 openedSession)
      = [(43 / 20, 1 / 5, False)]"
    using h1 by (simp add: onmessage_frame openedSession_fields cursorStart_def fixedDecoder_good)
  then show ?thesis
    using decode_failure_skips_frame
        [where dec = fixedDecoder and b = "''bad''" and k = 0 and s = openedSession
           and msg = "frame ''bad''" and nxt = "frame ''a''" and now = 1 and later = 2,
         OF h1 h2] h1 h2
    by (simp add: openedSession_fields)
qed

subsection \<open>The invariant of the playback cursor\<close>

text \<open>
  C6 (amended).  Buffer durations are not negative.  Then the invariant of the cursor
  at the device time \<open>now\<close> read by \<open>onmessage\<close> is preserved by \<open>onmessage\<close>, and it
  is established, whatever the state before, by every \<open>onmessage\<close> that writes the
  cursor (a chunk that decodes, or an interruption) and by \<open>startSession\<close>, which unsets
  it.  Nothing is said about the cursor between two events, while the device's clock
  runs on.
\<close>

theorem cursor_after_mutation:
  assumes "\<forall>b d. dec b = Some d \<longrightarrow> 0 \<le> d"
  shows "(cursorInv s now \<longrightarrow> cursorInv (onmessage dec k msg now s) now) \<and>
         (k < length (sessions s) \<and>
            (interrupted msg \<or> (truthy (inlineData msg) \<and> dec (the (inlineData msg)) \<noteq> None))
            \<longrightarrow> cursorInv (onmessage dec k msg now s) now) \<and>
         (truthy (API_KEY h) \<longrightarrow> cursorInv (startSession h s) now)"
proof -
  have sched: "cursorInv (scheduleAudio dec c x now t) now" if ok: "dec x \<noteq> None" for c x t
  proof -
    from ok obtain d where d: "dec x = Some d" by (cases "dec x") auto
    then have "0 \<le> d" using assms by blast
    moreover have "now \<le> cursorStart t now" by (simp add: cursorStart_def)
    ultimately show ?thesis
      using scheduleAudio_decoded(2) [of dec x c now t] d by (simp add: cursorInv_def)
  qed
  have sched': "cursorInv t now \<Longrightarrow> cursorInv (scheduleAudio dec c x now t) now" for c x t
    using sched [of x c t] by (cases "dec x") (auto simp: scheduleAudio_failed cursorInv_def)
  have fl: "cursorInv (flush t) now" for t by (simp add: cursorInv_def flush_fields)
  have 1: "cursorInv s now \<longrightarrow> cursorInv (onmessage dec k msg now s) now"
    using sched' fl by (simp add: onmessage_def Let_def)
  have 2: "k < length (sessions s) \<and>
            (interrupted msg \<or> (truthy (inlineData msg) \<and> dec (the (inlineData msg)) \<noteq> None))
            \<longrightarrow> cursorInv (onmessage dec k msg now s) now"
    using sched fl by (auto simp: onmessage_def Let_def)
  have 3: "truthy (API_KEY h) \<longrightarrow> cursorInv (startSession h s) now"
    by (simp add: startSession_def Let_def cursorInv_def stopVisualizer_def split: sum.splits)
  from 1 2 3 show ?thesis by blast
qed

lemma underrunSession_fields:
  "sessions underrunSession = sessions openedSession"
  "nextStartTimeRef underrunSession = 27 / 20"
  by (simp_all add: underrunSession_def onmessage_sessions onmessage_frame
      openedSession_fields fixedDecoder_good cursorStart_def)

text \<open>The theorem after an underrun: the cursor is 1.35 and the device time is 2.\<close>

theorem cursor_after_mutation_witness:
  "cursorInv (onmessage fixedDecoder 0 (frame ''b'') 2 underrunSession) 2 \<and>
   cursorInv (onmessage fixedDecoder 0 interruption 2 underrunSession) 2 \<and>
   cursorInv (startSession grantingHost underrunSession) 2"
proof -
  have h: "\<forall>b d. fixedDecoder b = Some d \<longrightarrow> 0 \<le> d"
    by (simp add: fixedDecoder_def)
  have k: "0 < length (sessions underrunSession)"
    by (simp add: underrunSession_fields openedSession_fields)
  show ?thesis
    using cursor_after_mutation [OF h, of underrunSession 2 0 "frame ''b''" grantingHost]
      cursor_after_mutation [OF h, of underrunSession 2 0 interruption grantingHost] k
    by (simp add: frame_def interruption_def fixedDecoder_good grantingHost_def)
qed

text \<open>
  C6 as stated asks for the invariant at every point of a session.  One chunk of
  200 ms handled at device time 1 leaves the cursor at 1.35; at device time 2 of the same
  session the cursor is neither unset nor ahead of the device.
\<close>

theorem cursor_behind_device_counterexample:
  "\<not> cursorInv underrunSession 2"
  by (simp add: cursorInv_def underrunSession_fields)

subsection \<open>Starting a session\<close>

lemma step_neverStarted:
  assumes "neverStarted s" and "keyAbsent e"
  shows "neverStarted (step dec s e)"
proof (cases e)
  case (Click h)
  then show ?thesis using assms by (simp add: neverStarted_def startSession_def)
next
  case Unmount
  then show ?thesis using assms
    by (simp add: neverStarted_def stopSession_def Let_def stopVisualizer_def
        disconnectNodes_def closeContext_def closeSession_def)
next
  case (OnOpen k freq)
  then show ?thesis using assms by (simp add: neverStarted_def onopen_def)
next
  case (OnMessage k msg now)
  then show ?thesis using assms by (simp add: neverStarted_def onmessage_def)
next
  case (OnClose k)
  then show ?thesis using assms by (simp add: neverStarted_def onclose_def)
next
  case (OnError k)
  then show ?thesis using assms by (simp add: neverStarted_def onerror_def)
next
  case (AnimationFrame f freq)
  then show ?thesis using assms by (simp add: neverStarted_def)
next
  case (SpeakingTimeout t now)
  then show ?thesis using assms by (simp add: neverStarted_def onSpeakingTimeout_def)
next
  case (SourceEnded h)
  then show ?thesis using assms by (simp add: neverStarted_def onended_def)
qed

lemma run_neverStarted:
  "neverStarted s \<Longrightarrow> list_all keyAbsent evs \<Longrightarrow> neverStarted (run dec s evs)"
  unfolding run_def by (induction evs arbitrary: s) (simp_all add: step_neverStarted)

text \<open>
  C10.  When \<open>process.env.API_KEY\<close> is absent (or empty), \<open>startSession\<close> changes
  nothing but the error message: the status is the one before the call, and no
  AudioContext, no microphone stream and no connection is created.  So in every run
  of the component in which the key is absent at each press of the button, the status
  remains \<open>Disconnected\<close>: it enters neither \<open>Connecting\<close> nor \<open>Error\<close>.
\<close>

theorem start_without_api_key:
  assumes "\<not> truthy (API_KEY h)"
  shows "startSession h s = s\<lparr>errorMsg := ''API Key missing''\<rparr> \<and>
         errorMsg (startSession h s) = ''API Key missing'' \<and>
         status (startSession h s) = status s \<and>
         contexts (startSession h s) = contexts s \<and>
         liveStreams (startSession h s) = liveStreams s \<and>
         sessions (startSession h s) = sessions s \<and>
         (list_all keyAbsent evs \<longrightarrow>
            status (run dec initial evs) = Disconnected \<and>
            contexts (run dec initial evs) = [] \<and>
            liveStreams (run dec initial evs) = 0 \<and>
            sessions (run dec initial evs) = [])"
proof -
  have "neverStarted initial" by (simp add: neverStarted_def initial_def)
  then have "list_all keyAbsent evs \<longrightarrow> neverStarted (run dec initial evs)"
    using run_neverStarted by blast
  then show ?thesis using assms by (simp add: startSession_def neverStarted_def)
qed

text \<open>The theorem at the first press of the button, with no key in the environment.\<close>

theorem start_without_api_key_witness:
  "\<not> truthy (API_KEY keylessHost) \<and>
   list_all keyAbsent [Click keylessHost, OnOpen 0 [], Click keylessHost, Unmount] \<and>
   errorMsg (startSession keylessHost initial) = ''API Key missing'' \<and>
   status (startSession keylessHost initial) = Disconnected \<and>
   contexts (startSession keylessHost initial) = [] \<and>
   liveStreams (startSession keylessHost initial) = 0 \<and>
   sessions (startSession keylessHost initial) = [] \<and>
   status (run fixedDecoder initial [Click keylessHost, OnOpen 0 [], Click keylessHost, Unmount])
     = Disconnected"
proof -
  have h: "\<not> truthy (API_KEY keylessHost)" by (simp add: keylessHost_def)
  have l: "list_all keyAbsent [Click keylessHost, OnOpen 0 [], Click keylessHost, Unmount]"
    by (simp add: keylessHost_def)
  show ?thesis
    using start_without_api_key [OF h, of initial
        "[Click keylessHost, OnOpen 0 [], Click keylessHost, Unmount]" fixedDecoder] h l
    by (simp add: initial_def)
qed

text \<open>
  C3 (amended).  When the key is present and the request for the microphone fails with
  message \<open>m\<close>, \<open>startSession\<close> ends in the status \<open>Error\<close> with \<open>m\<close> as the error
  message (\<open>Failed to start live session\<close> when \<open>m\<close> is empty); no connection is opened
  and no microphone stream is held.  Both AudioContexts, the input one at 16 kHz and
  the output one at 24 kHz, were created and resumed before the microphone was
  requested, and the refs point to them.
\<close>

theorem start_with_microphone_denied:
  assumes "truthy (API_KEY h)" and "getUserMedia h = Inl m"
  shows "status (startSession h s) = Error \<and>
         errorMsg (startSession h s) = (if m = [] then ''Failed to start live session'' else m) \<and>
         sessions (startSession h s) = sessions s \<and>
         sessionRef (startSession h s) = sessionRef s \<and>
         liveStreams (startSession h s) = liveStreams s \<and>
         contextsOpenedBy s (startSession h s)
           = [(16000, if inputCtxState h = Suspended then Running else inputCtxState h),
              (24000, if outputCtxState h = Suspended then Running else outputCtxState h)] \<and>
         inputAudioContextRef (startSession h s) = Some (length (contexts s)) \<and>
         audioContextRef (startSession h s) = Some (Suc (length (contexts s)))"
  using assms
  by (simp add: startSession_def Let_def resumeIfSuspended_def stopVisualizer_def
      contextsOpenedBy_def nth_append list_update_append)

text \<open>The theorem at the first press of the button, the microphone being denied.\<close>

theorem start_with_microphone_denied_witness:
  "truthy (API_KEY denyingHost) \<and> getUserMedia denyingHost = Inl ''Permission denied'' \<and>
   status (startSession denyingHost initial) = Error \<and>
   errorMsg (startSession denyingHost initial) = ''Permission denied'' \<and>
   sessions (startSession denyingHost initial) = [] \<and>
   liveStreams (startSession denyingHost initial) = 0 \<and>
   contextsOpenedBy initial (startSession denyingHost initial)
     = [(16000, Running), (24000, Running)] \<and>
   audioContextRef (startSession denyingHost initial) = Some 1"
proof -
  have h: "truthy (API_KEY denyingHost)" "getUserMedia denyingHost = Inl ''Permission denied''"
    by (simp_all add: denyingHost_def)
  show ?thesis
    using start_with_microphone_denied [OF h, of initial] h
    by (simp add: initial_def denyingHost_def)
qed

text \<open>
  C3 as stated asks that no output device was opened during the call.  The call with
  the microphone denied, from the initial state, creates the output context at 24 kHz.
\<close>

theorem start_denied_opens_output_counterexample:
  "\<not> (status (startSession denyingHost initial) = Error \<and>
      errorMsg (startSession denyingHost initial) = ''Permission denied'' \<and>
      24000 \<notin> fst ` set (contextsOpenedBy initial (startSession denyingHost initial)))"
  by (simp add: handler_defs contextsOpenedBy_def)

subsection \<open>Errors and teardown\<close>

lemma closeContext_fields [simp]:
  "sessions (closeContext r s) = sessions s"
  "length (contexts (closeContext r s)) = length (contexts s)"
  "sessionRef (closeContext r s) = sessionRef s"
  by (simp_all add: closeContext_def split: option.splits)

lemma stopSession_releases:
  "status (stopSession s) = Disconnected \<and> isActive (stopSession s) = False \<and>
   sessionRef (stopSession s) = None \<and> sourcesRef (stopSession s) = [] \<and>
   (\<forall>c. inputAudioContextRef s = Some c \<and> c < length (contexts s)
        \<longrightarrow> snd (contexts (stopSession s) ! c) = Closed) \<and>
   (\<forall>c. audioContextRef s = Some c \<and> c < length (contexts s)
        \<longrightarrow> snd (contexts (stopSession s) ! c) = Closed) \<and>
   (\<forall>k. sessionRef s = Some k \<and> k < length (sessions s)
        \<longrightarrow> c_closeCalls (sessions (stopSession s) ! k) = Suc (c_closeCalls (sessions s ! k)))"
  by (auto simp: stopSession_def Let_def stopVisualizer_def disconnectNodes_def
      closeContext_def closeSession_def nth_list_update split: option.splits)

text \<open>
  C4 (amended).  The \<open>onerror\<close> callback of a connection sets the status \<open>Error\<close> and
  the fixed message \<open>Connection interrupted. Reconnecting...\<close>, clears the active flag
  and stops the visualizer (volume 0, no pending animation frame, the model not
  speaking).  It runs no teardown: every AudioContext, every connection, the capture
  graph and the microphone stream are as before the event, and the refs still point
  to them; a \<open>stopSession\<close> after the event closes the two contexts and calls
  \<open>close()\<close> on the session the refs point to.
\<close>

theorem transport_error_sets_error_only:
  assumes "k < length (sessions s)"
  shows "status (onerror k s) = Error \<and>
         errorMsg (onerror k s) = ''Connection interrupted. Reconnecting...'' \<and>
         isActive (onerror k s) = False \<and>
         volume (onerror k s) = 0 \<and>
         isModelSpeaking (onerror k s) = False \<and>
         animationFrameRef (onerror k s) = None \<and>
         contexts (onerror k s) = contexts s \<and>
         sessions (onerror k s) = sessions s \<and>
         graphs (onerror k s) = graphs s \<and>
         liveStreams (onerror k s) = liveStreams s \<and>
         inputAudioContextRef (onerror k s) = inputAudioContextRef s \<and>
         audioContextRef (onerror k s) = audioContextRef s \<and>
         sessionRef (onerror k s) = sessionRef s \<and>
         (\<forall>c. inputAudioContextRef s = Some c \<and> c < length (contexts s)
              \<longrightarrow> snd (contexts (stopSession (onerror k s)) ! c) = Closed) \<and>
         (\<forall>c. audioContextRef s = Some c \<and> c < length (contexts s)
              \<longrightarrow> snd (contexts (stopSession (onerror k s)) ! c) = Closed) \<and>
         (\<forall>j. sessionRef s = Some j \<and> j < length (sessions s)
              \<longrightarrow> c_closeCalls (sessions (stopSession (onerror k s)) ! j)
                    = Suc (c_closeCalls (sessions s ! j)))"
proof -
  have f: "contexts (onerror k s) = contexts s" "sessions (onerror k s) = sessions s"
    "inputAudioContextRef (onerror k s) = inputAudioContextRef s"
    "audioContextRef (onerror k s) = audioContextRef s"
    "sessionRef (onerror k s) = sessionRef s"
    by (simp_all add: onerror_def stopVisualizer_def)
  have g: "status (onerror k s) = Error \<and>
         errorMsg (onerror k s) = ''Connection interrupted. Reconnecting...'' \<and>
         isActive (onerror k s) = False \<and>
         volume (onerror k s) = 0 \<and>
         isModelSpeaking (onerror k s) = False \<and>
         animationFrameRef (onerror k s) = None \<and>
         graphs (onerror k s) = graphs s \<and>
         liveStreams (onerror k s) = liveStreams s"
    using assms by (simp add: onerror_def stopVisualizer_def)
  show ?thesis using stopSession_releases [of "onerror k s"] g by (simp add: f)
qed

text \<open>The theorem at an error of the connection of a freshly opened session.\<close>

theorem transport_error_sets_error_only_witness:
  "0 < length (sessions openedSession) \<and>
   status (onerror 0 openedSession) = Error \<and>
   errorMsg (onerror 0 openedSession) = ''Connection interrupted. Reconnecting...'' \<and>
   contexts (onerror 0 openedSession) = [(16000, Running), (24000, Running)] \<and>
   sessions (onerror 0 openedSession)
     = [\<lparr>c_inputCtx = 0, c_outputCtx = 1, c_isActive = False, c_closeCalls = 0\<rparr>] \<and>
   snd (contexts (stopSession (onerror 0 openedSession)) ! 0) = Closed \<and>
   snd (contexts (stopSession (onerror 0 openedSession)) ! 1) = Closed \<and>
   c_closeCalls (sessions (stopSession (onerror 0 openedSession)) ! 0) = 1"
proof -
  have h: "0 < length (sessions openedSession)" by (simp add: openedSession_fields)
  have r: "inputAudioContextRef openedSession = Some 0" "audioContextRef openedSession = Some 1"
    "sessionRef openedSession = Some 0"
    by (simp_all add: openedSession_def handler_defs)
  show ?thesis
    using transport_error_sets_error_only [OF h] h r by (simp add: openedSession_fields)
qed

text \<open>
  C4 as stated asks that both audio devices are released and the transport is closed
  once.  After an error in a freshly opened session both contexts are still running and
  \<open>close()\<close> was never called on the session.
\<close>

theorem transport_error_no_teardown_counterexample:
  "\<not> (status (onerror 0 openedSession) = Error \<and>
      snd (contexts (onerror 0 openedSession) ! 0) = Closed \<and>
      snd (contexts (onerror 0 openedSession) ! 1) = Closed \<and>
      c_closeCalls (sessions (onerror 0 openedSession) ! 0) = 1)"
  by (simp add: onerror_def stopVisualizer_def openedSession_fields)

text \<open>
  C5 (the code at two failing inputs).  First run: the button starts a session, the
  connection opens, the button stops the session and the component is unmounted, which
  stops once more.  The status is \<open>Disconnected\<close> and both contexts are closed, but the
  microphone stream obtained by \<open>getUserMedia\<close> is still live: no code path stops its
  tracks.  Second run: a first start fails at the microphone, a second start succeeds
  and is stopped.  \<open>stopSession\<close> closes the two contexts the refs point to; the two
  contexts of the first start, which the second start overwrote in the refs, stay
  running.
\<close>

theorem stop_leaves_devices_open:
  "status (run fixedDecoder initial [Click grantingHost, OnOpen 0 [], Click grantingHost, Unmount])
     = Disconnected \<and>
   contexts (run fixedDecoder initial [Click grantingHost, OnOpen 0 [], Click grantingHost, Unmount])
     = [(16000, Closed), (24000, Closed)] \<and>
   liveStreams (run fixedDecoder initial [Click grantingHost, OnOpen 0 [], Click grantingHost, Unmount])
     = 1 \<and>
   status (run fixedDecoder initial [Click denyingHost, Click grantingHost, OnOpen 0 [], Click grantingHost])
     = Disconnected \<and>
   contexts (run fixedDecoder initial [Click denyingHost, Click grantingHost, OnOpen 0 [], Click grantingHost])
     = [(16000, Running), (24000, Running), (16000, Closed), (24000, Closed)]"
  by (simp add: handler_defs)

subsection \<open>The connection closes\<close>

text \<open>
  C7 (the code at the failing input).  The button starts a session, the connection
  opens, and then the remote end closes it, with no \<open>stopSession\<close> in between.  The
  \<open>onclose\<close> callback tests the \<open>isActive\<close> of the render in which \<open>startSession\<close> was
  invoked, which is \<open>false\<close>; so the status stays \<open>Connected\<close> and the active flag stays
  set.
\<close>

theorem remote_close_keeps_connected:
  "status (run fixedDecoder initial [Click grantingHost, OnOpen 0 [], OnClose 0]) = Connected \<and>
   isActive (run fixedDecoder initial [Click grantingHost, OnOpen 0 [], OnClose 0]) = True"
  by (simp add: handler_defs)

subsection \<open>Facts about every run\<close>

lemma closeContext_keeps [simp]:
  "volume (closeContext r s) = volume s"
  "analyserRef (closeContext r s) = analyserRef s"
  "dataArray (closeContext r s) = dataArray s"
  "liveStreams (closeContext r s) = liveStreams s"
  "audioContextRef (closeContext r s) = audioContextRef s"
  by (simp_all add: closeContext_def split: option.splits)

lemma closeSession_keeps [simp]:
  "volume (closeSession s) = volume s"
  "analyserRef (closeSession s) = analyserRef s"
  "dataArray (closeSession s) = dataArray s"
  "liveStreams (closeSession s) = liveStreams s"
  by (simp_all add: closeSession_def split: option.splits)

lemma closeSession_captured:
  "map c_isActive (sessions (closeSession s)) = map c_isActive (sessions s)"
  by (auto simp: closeSession_def list_eq_iff_nth_eq nth_list_update split: option.splits)

lemma disconnectNodes_keeps [simp]:
  "volume (disconnectNodes s) = volume s"
  "analyserRef (disconnectNodes s) = analyserRef s"
  "dataArray (disconnectNodes s) = dataArray s"
  "liveStreams (disconnectNodes s) = liveStreams s"
  "sessions (disconnectNodes s) = sessions s"
  "audioContextRef (disconnectNodes s) = audioContextRef s"
  "inputAudioContextRef (disconnectNodes s) = inputAudioContextRef s"
  by (simp_all add: disconnectNodes_def Let_def split: option.splits)

lemma stopSession_keeps:
  "volume (stopSession s) = 0"
  "analyserRef (stopSession s) = analyserRef s"
  "dataArray (stopSession s) = dataArray s"
  "liveStreams (stopSession s) = liveStreams s"
  "map c_isActive (sessions (stopSession s)) = map c_isActive (sessions s)"
  by (simp_all add: stopSession_def Let_def closeSession_captured)
     (simp_all add: stopVisualizer_def)

lemma length_getByteFrequencyData: "length (getByteFrequencyData freq arr) = length arr"
  by (simp add: getByteFrequencyData_def)

lemma updateVolume_volOk: "analyserRef s \<noteq> None \<Longrightarrow> volOk (updateVolume freq s)"
  by (auto simp: updateVolume_def volOk_def Let_def)

lemma updateVolume_keeps_volOk: "volOk s \<Longrightarrow> volOk (updateVolume freq s)"
  by (cases "analyserRef s = None") (auto simp: updateVolume_def volOk_def Let_def)

lemma startSession_volOk: "volOk s \<Longrightarrow> volOk (startSession h s)"
  by (simp add: startSession_def volOk_def Let_def resumeIfSuspended_def stopVisualizer_def
      split: sum.splits)

lemma stopSession_volOk: "volOk (stopSession s)"
  by (simp add: volOk_def stopSession_keeps)

lemma onopen_volOk: "volOk s \<Longrightarrow> volOk (onopen k freq s)"
  using updateVolume_keeps_volOk
  by (simp add: onopen_def Let_def startVisualizer_def volOk_def)

lemma onmessage_volume: "volume (onmessage dec k msg now s) = volume s"
proof -
  have a: "volume (scheduleAudio dec c b now t) = volume t" for c b t
    by (simp add: scheduleAudio_def Let_def split: option.splits)
  show ?thesis by (simp add: onmessage_def Let_def a flush_fields)
qed

lemma step_volOk: "volOk s \<Longrightarrow> volOk (step dec s e)"
proof (cases e)
  case (Click h)
  assume "volOk s"
  then show ?thesis using Click by (simp add: startSession_volOk stopSession_volOk)
next
  case Unmount
  then show ?thesis by (simp add: stopSession_volOk)
next
  case (OnOpen k freq)
  assume "volOk s"
  then show ?thesis using OnOpen by (simp add: onopen_volOk)
next
  case (OnMessage k msg now)
  assume "volOk s"
  then show ?thesis using OnMessage by (simp add: volOk_def onmessage_volume)
next
  case (OnClose k)
  assume "volOk s"
  then show ?thesis using OnClose by (simp add: volOk_def onclose_def stopVisualizer_def)
next
  case (OnError k)
  assume "volOk s"
  then show ?thesis using OnError by (simp add: volOk_def onerror_def stopVisualizer_def)
next
  case (AnimationFrame f freq)
  assume "volOk s"
  then show ?thesis using AnimationFrame by (simp add: updateVolume_keeps_volOk)
next
  case (SpeakingTimeout t now)
  assume "volOk s"
  then show ?thesis using SpeakingTimeout by (simp add: volOk_def onSpeakingTimeout_def Let_def)
next
  case (SourceEnded h)
  assume "volOk s"
  then show ?thesis using SourceEnded by (simp add: volOk_def onended_def)
qed

lemma run_volOk: "volOk s \<Longrightarrow> volOk (run dec s evs)"
  unfolding run_def by (induction evs arbitrary: s) (simp_all add: step_volOk)

text \<open>
  While an analyser is set, \<open>dataArray\<close> has \<open>bufferLength\<close> elements, so the loop of
  \<open>updateVolume\<close> reads inside the array.
\<close>

lemma updateVolume_arrayOk: "arrayOk s \<Longrightarrow> arrayOk (updateVolume freq s)"
  by (auto simp: arrayOk_def updateVolume_def Let_def length_getByteFrequencyData)

lemma onopen_arrayOk: "arrayOk (onopen k freq s) \<or> onopen k freq s = s"
  by (simp add: onopen_def Let_def startVisualizer_def updateVolume_def arrayOk_def
      length_getByteFrequencyData)

lemma stopSession_arrayOk: "arrayOk s \<Longrightarrow> arrayOk (stopSession s)"
  by (simp add: arrayOk_def stopSession_keeps)

lemma startSession_arrayOk: "arrayOk s \<Longrightarrow> arrayOk (startSession h s)"
  by (simp add: arrayOk_def startSession_def Let_def resumeIfSuspended_def stopVisualizer_def
      split: sum.splits)

lemma step_arrayOk: "arrayOk s \<Longrightarrow> arrayOk (step dec s e)"
proof (cases e)
  case (Click h)
  assume "arrayOk s"
  then show ?thesis using Click by (simp add: startSession_arrayOk stopSession_arrayOk)
next
  case Unmount
  assume "arrayOk s"
  then show ?thesis using Unmount by (simp add: stopSession_arrayOk)
next
  case (OnOpen k freq)
  assume "arrayOk s"
  then show ?thesis using OnOpen onopen_arrayOk [of k freq s] by auto
next
  case (OnMessage k msg now)
  assume a: "arrayOk s"
  have "analyserRef (onmessage dec k msg now s) = analyserRef s
      \<and> dataArray (onmessage dec k msg now s) = dataArray s"
  proof -
    have x: "analyserRef (scheduleAudio dec c b now t) = analyserRef t
        \<and> dataArray (scheduleAudio dec c b now t) = dataArray t" for c b t
      by (simp add: scheduleAudio_def Let_def resumeIfSuspended_def split: option.splits)
    have y: "analyserRef (flush t) = analyserRef t \<and> dataArray (flush t) = dataArray t" for t
      using flush_frame [of t] by auto
    show ?thesis by (simp add: onmessage_def Let_def x y)
  qed
  then show ?thesis using a OnMessage by (simp add: arrayOk_def)
next
  case (OnClose k)
  assume "arrayOk s"
  then show ?thesis using OnClose by (simp add: arrayOk_def onclose_def stopVisualizer_def)
next
  case (OnError k)
  assume "arrayOk s"
  then show ?thesis using OnError by (simp add: arrayOk_def onerror_def stopVisualizer_def)
next
  case (AnimationFrame f freq)
  assume "arrayOk s"
  then show ?thesis using AnimationFrame by (simp add: updateVolume_arrayOk)
next
  case (SpeakingTimeout t now)
  assume "arrayOk s"
  then show ?thesis using SpeakingTimeout by (simp add: arrayOk_def onSpeakingTimeout_def Let_def)
next
  case (SourceEnded h)
  assume "arrayOk s"
  then show ?thesis using SourceEnded by (simp add: arrayOk_def onended_def)
qed

lemma run_arrayOk: "arrayOk (run dec initial evs)"
proof -
  have "arrayOk s \<Longrightarrow> arrayOk (run dec s evs)" for s
    unfolding run_def by (induction evs arbitrary: s) (simp_all add: step_arrayOk)
  moreover have "arrayOk initial" by (simp add: arrayOk_def initial_def)
  ultimately show ?thesis by blast
qed

lemma relevantBins_in_range: "relevantBins = 64 \<and> bufferLength = 128"
  by (simp add: relevantBins_def bufferLength_def frequencyBinCount_def fftSize_def)

text \<open>
  C9.  Whatever frequency data the analyser delivers (any list of bytes), the volume
  that \<open>updateVolume\<close> publishes lies between 0 and 100, and so does the volume in
  every state the component reaches from its initial state, by any sequence of events.
\<close>

theorem volume_in_range:
  "(analyserRef s \<noteq> None \<longrightarrow>
      0 \<le> volume (updateVolume freq s) \<and> volume (updateVolume freq s) \<le> 100) \<and>
   0 \<le> volume (run dec initial evs) \<and> volume (run dec initial evs) \<le> 100"
proof -
  have "volOk initial" by (simp add: volOk_def initial_def)
  then have "volOk (run dec initial evs)" by (rule run_volOk)
  then show ?thesis using updateVolume_volOk [of s freq] by (simp add: volOk_def)
qed

lemma openedSession_analyser: "analyserRef openedSession = Some 0"
  by (simp add: openedSession_def handler_defs)

text \<open>The theorem at a tick with every bin at 255, in a freshly opened session.\<close>

theorem volume_in_range_witness:
  "analyserRef openedSession \<noteq> None \<and>
   0 \<le> volume (updateVolume (replicate 128 255) openedSession) \<and>
   volume (updateVolume (replicate 128 255) openedSession) \<le> 100 \<and>
   0 \<le> volume (run fixedDecoder initial
          [Click grantingHost, OnOpen 0 [], AnimationFrame 0 (replicate 128 255)]) \<and>
   volume (run fixedDecoder initial
          [Click grantingHost, OnOpen 0 [], AnimationFrame 0 (replicate 128 255)]) \<le> 100"
proof -
  have h: "analyserRef openedSession \<noteq> None" by (simp add: openedSession_analyser)
  show ?thesis
    using volume_in_range [of openedSession "replicate 128 255" fixedDecoder
        "[Click grantingHost, OnOpen 0 [], AnimationFrame 0 (replicate 128 255)]"] h
    by blast
qed

text \<open>
  In every state reached through the button, each connection's callbacks captured
  \<open>isActive = false\<close>: the button calls \<open>startSession\<close> only while \<open>isActive\<close> is false.
  So \<open>onclose\<close> never changes the status or the active flag.
\<close>

lemma capturesInactive_map:
  "capturesInactive s = list_all (\<lambda>b. \<not> b) (map c_isActive (sessions s))"
  by (simp add: capturesInactive_def list_all_iff)

lemma stopSession_captures: "capturesInactive s \<Longrightarrow> capturesInactive (stopSession s)"
  by (simp add: capturesInactive_map stopSession_keeps)

lemma startSession_captures:
  "capturesInactive s \<Longrightarrow> \<not> isActive s \<Longrightarrow> capturesInactive (startSession h s)"
  by (simp add: startSession_def capturesInactive_def Let_def resumeIfSuspended_def
      stopVisualizer_def split: sum.splits)

lemma onopen_sessions: "sessions (onopen k freq s) = sessions s"
  by (simp add: onopen_def Let_def startVisualizer_def updateVolume_def)

lemma step_captures: "capturesInactive s \<Longrightarrow> capturesInactive (step dec s e)"
proof (cases e)
  case (Click h)
  assume "capturesInactive s"
  then show ?thesis using Click by (simp add: startSession_captures stopSession_captures)
next
  case Unmount
  assume "capturesInactive s"
  then show ?thesis using Unmount by (simp add: stopSession_captures)
next
  case (OnOpen k freq)
  assume "capturesInactive s"
  then show ?thesis using OnOpen by (simp add: capturesInactive_def onopen_sessions)
next
  case (OnMessage k msg now)
  assume "capturesInactive s"
  then show ?thesis using OnMessage by (simp add: capturesInactive_def onmessage_sessions)
next
  case (OnClose k)
  assume "capturesInactive s"
  then show ?thesis using OnClose by (simp add: capturesInactive_def onclose_def stopVisualizer_def)
next
  case (OnError k)
  assume "capturesInactive s"
  then show ?thesis using OnError by (simp add: capturesInactive_def onerror_def stopVisualizer_def)
next
  case (AnimationFrame f freq)
  assume "capturesInactive s"
  then show ?thesis using AnimationFrame by (simp add: capturesInactive_def updateVolume_def Let_def)
next
  case (SpeakingTimeout t now)
  assume "capturesInactive s"
  then show ?thesis using SpeakingTimeout
    by (simp add: capturesInactive_def onSpeakingTimeout_def Let_def)
next
  case (SourceEnded h)
  assume "capturesInactive s"
  then show ?thesis using SourceEnded by (simp add: capturesInactive_def onended_def)
qed

lemma run_captures: "capturesInactive s \<Longrightarrow> capturesInactive (run dec s evs)"
  unfolding run_def by (induction evs arbitrary: s) (simp_all add: step_captures)

lemma onclose_never_disconnects:
  "status (onclose k (run dec initial evs)) = status (run dec initial evs) \<and>
   isActive (onclose k (run dec initial evs)) = isActive (run dec initial evs)"
proof -
  have "capturesInactive initial" by (simp add: capturesInactive_def initial_def)
  then have "capturesInactive (run dec initial evs)" by (rule run_captures)
  then show ?thesis
    by (simp add: onclose_def stopVisualizer_def capturesInactive_def list_all_length)
qed

text \<open>No event releases a microphone stream.\<close>

lemma liveStreams_never_decrease: "liveStreams s \<le> liveStreams (step dec s e)"
proof (cases e)
  case (Click h)
  have "liveStreams s \<le> liveStreams (startSession h s)"
    by (simp add: startSession_def Let_def resumeIfSuspended_def stopVisualizer_def
        split: sum.splits)
  then show ?thesis using Click by (simp add: stopSession_keeps)
next
  case Unmount
  then show ?thesis by (simp add: stopSession_keeps)
next
  case (OnOpen k freq)
  then show ?thesis
    by (simp add: onopen_def Let_def startVisualizer_def updateVolume_def)
next
  case (OnMessage k msg now)
  have x: "liveStreams (scheduleAudio dec c b now t) = liveStreams t" for c b t
    by (simp add: scheduleAudio_def Let_def resumeIfSuspended_def split: option.splits)
  have y: "liveStreams (flush t) = liveStreams t" for t
    using flush_frame [of t] by auto
  show ?thesis using OnMessage by (simp add: onmessage_def Let_def x y)
next
  case (OnClose k)
  then show ?thesis by (simp add: onclose_def stopVisualizer_def)
next
  case (OnError k)
  then show ?thesis by (simp add: onerror_def stopVisualizer_def)
next
  case (AnimationFrame f freq)
  then show ?thesis by (simp add: updateVolume_def Let_def)
next
  case (SpeakingTimeout t now)
  then show ?thesis by (simp add: onSpeakingTimeout_def Let_def)
next
  case (SourceEnded h)
  then show ?thesis by (simp add: onended_def)
qed

lemma liveStreams_run: "liveStreams s \<le> liveStreams (run dec s evs)"
  unfolding run_def
proof (induction evs arbitrary: s)
  case Nil
  then show ?case by simp
next
  case (Cons e evs)
  have "liveStreams s \<le> liveStreams (step dec s e)" by (rule liveStreams_never_decrease)
  also have "\<dots> \<le> liveStreams (foldl (step dec) (step dec s e) evs)" by (rule Cons.IH)
  finally show ?case by simp
qed

end
